theory Spec2Isabelle
  imports Main
begin

section \<open>JavaScript values\<close>

text \<open>
  The values that cross the store and the HTTP bodies are JSON values. Strings are lists
  of code units below 256; numbers are modelled through their integer fragment (the
  endpoints themselves only ever write strings and objects of strings). A JavaScript value
  that may also be \<open>undefined\<close> is a \<open>json option\<close>, with \<open>None\<close> for \<open>undefined\<close>.
  \<open>JObj\<close> lists the own properties of an object in the order they were created.
\<close>

datatype json =
    JNull
  | JBool bool
  | JNum int
  | JStr string
  | JArr "json list"
  | JObj "(string \<times> json) list"

datatype js_error = SyntaxError | TypeError | BackendError | ValidationError | OtherError

text \<open>An awaited promise either resolves with a value or rejects (throws at the await).\<close>

datatype 'a settled = Resolved 'a | Rejected js_error

text \<open>Truthiness, as tested by \<open>!x\<close>, \<open>x ? a : b\<close> and \<open>x || d\<close>.\<close>

fun falsy :: "json option \<Rightarrow> bool" where
  "falsy None = True"
| "falsy (Some JNull) = True"
| "falsy (Some (JBool b)) = (\<not> b)"
| "falsy (Some (JNum i)) = (i = 0)"
| "falsy (Some (JStr s)) = (s = [])"
| "falsy (Some (JArr vs)) = False"
| "falsy (Some (JObj kvs)) = False"

text \<open>
  Strict equality \<open>a === b\<close>. Primitives compare by value. Arrays and objects compare by
  reference; every comparison in the handlers has its operands come from different parses
  (or from a literal), so two arrays or objects are never the same reference.
\<close>

fun strict_eq :: "json option \<Rightarrow> json option \<Rightarrow> bool" where
  "strict_eq None None = True"
| "strict_eq (Some JNull) (Some JNull) = True"
| "strict_eq (Some (JBool a)) (Some (JBool b)) = (a = b)"
| "strict_eq (Some (JNum a)) (Some (JNum b)) = (a = b)"
| "strict_eq (Some (JStr a)) (Some (JStr b)) = (a = b)"
| "strict_eq a b = False"

text \<open>
  Property read \<open>v.name\<close> on a value that is neither \<open>null\<close> nor \<open>undefined\<close>, for the
  property names the handlers use (none of them is inherited from a prototype): an own
  property of an object, \<open>undefined\<close> on everything else.
\<close>

fun get_prop :: "json \<Rightarrow> string \<Rightarrow> json option" where
  "get_prop (JObj kvs) name = map_of kvs name"
| "get_prop v name = None"

text \<open>
  An object literal as \<open>JSON.stringify\<close> and \<open>NextResponse.json\<close> see it: a property
  whose value is \<open>undefined\<close> is left out.
\<close>

fun js_object :: "(string \<times> json option) list \<Rightarrow> (string \<times> json) list" where
  "js_object [] = []"
| "js_object ((k, None) # ps) = js_object ps"
| "js_object ((k, Some v) # ps) = (k, v) # js_object ps"

subsection \<open>Decimal and hexadecimal digits\<close>

definition is_digit :: "char \<Rightarrow> bool" where
  "is_digit c = (48 \<le> (of_char c :: nat) \<and> (of_char c :: nat) \<le> 57)"

definition digit_val :: "char \<Rightarrow> nat" where
  "digit_val c = of_char c - 48"

definition digit_char :: "nat \<Rightarrow> char" where
  "digit_char d = char_of (48 + d)"

definition hex_char :: "nat \<Rightarrow> char" where
  "hex_char d = char_of (if d < 10 then 48 + d else 87 + d)"

definition hex_val :: "char \<Rightarrow> nat option" where
  "hex_val c =
     (let n = (of_char c :: nat) in
      if 48 \<le> n \<and> n \<le> 57 then Some (n - 48)
      else if 97 \<le> n \<and> n \<le> 102 then Some (n - 87)
      else if 65 \<le> n \<and> n \<le> 70 then Some (n - 55)
      else None)"

definition hex4 :: "char \<Rightarrow> char \<Rightarrow> char \<Rightarrow> char \<Rightarrow> nat option" where
  "hex4 a b c d =
     (case (hex_val a, hex_val b, hex_val c, hex_val d) of
        (Some w, Some x, Some y, Some z) \<Rightarrow> Some (((w * 16 + x) * 16 + y) * 16 + z)
      | _ \<Rightarrow> None)"

function show_nat :: "nat \<Rightarrow> string" where
  "show_nat n = (if n < 10 then [digit_char n] else show_nat (n div 10) @ [digit_char (n mod 10)])"
  by pat_completeness auto
termination
  by (relation "measure (\<lambda>n. n)") auto

declare show_nat.simps [simp del]

definition show_int :: "int \<Rightarrow> string" where
  "show_int i = (if i < 0 then CHR ''-'' # show_nat (nat (- i)) else show_nat (nat i))"

subsection \<open>ToString\<close>

text \<open>
  The conversion a template literal \<open>`...${v}`\<close> applies to \<open>v\<close>: a string is itself,
  an array is its elements joined by commas (\<open>null\<close> elements contribute nothing), an
  object is \<open>[object Object]\<close>.
\<close>

fun to_string :: "json \<Rightarrow> string"
  and join_elems :: "json list \<Rightarrow> string"
  and elem_string :: "json \<Rightarrow> string" where
  "to_string JNull = ''null''"
| "to_string (JBool b) = (if b then ''true'' else ''false'')"
| "to_string (JNum i) = show_int i"
| "to_string (JStr s) = s"
| "to_string (JArr vs) = join_elems vs"
| "to_string (JObj kvs) = ''[object Object]''"
| "join_elems [] = []"
| "join_elems [v] = elem_string v"
| "join_elems (v # w # vs) = elem_string v @ '','' @ join_elems (w # vs)"
| "elem_string v = (if v = JNull then [] else to_string v)"

subsection \<open>JSON.stringify\<close>

text \<open>
  \<open>JSON.stringify\<close> without indentation. A string is quoted with the escapes of
  QuoteJSONString: the quote, the backslash, the five short control escapes, and
  \<open>\u00xx\<close> (lower-case hexadecimal) for the other code units below 0x20.
\<close>

definition quote_char :: "char \<Rightarrow> string" where
  "quote_char c =
     (if c = CHR 0x22 then [CHR 0x5C, CHR 0x22]
      else if c = CHR 0x5C then [CHR 0x5C, CHR 0x5C]
      else if c = CHR 0x08 then [CHR 0x5C, CHR ''b'']
      else if c = CHR 0x0C then [CHR 0x5C, CHR ''f'']
      else if c = CHR 0x0A then [CHR 0x5C, CHR ''n'']
      else if c = CHR 0x0D then [CHR 0x5C, CHR ''r'']
      else if c = CHR 0x09 then [CHR 0x5C, CHR ''t'']
      else if (of_char c :: nat) < 32 then
        [CHR 0x5C, CHR ''u'', CHR ''0'', CHR ''0'',
         hex_char ((of_char c :: nat) div 16), hex_char ((of_char c :: nat) mod 16)]
      else [c])"

definition quote :: "string \<Rightarrow> string" where
  "quote s = CHR 0x22 # concat (map quote_char s) @ [CHR 0x22]"

fun JSON_stringify :: "json \<Rightarrow> string"
  and stringify_elements :: "json list \<Rightarrow> string"
  and stringify_members :: "(string \<times> json) list \<Rightarrow> string" where
  "JSON_stringify JNull = ''null''"
| "JSON_stringify (JBool b) = (if b then ''true'' else ''false'')"
| "JSON_stringify (JNum i) = show_int i"
| "JSON_stringify (JStr s) = quote s"
| "JSON_stringify (JArr vs) = ''['' @ stringify_elements vs @ '']''"
| "JSON_stringify (JObj kvs) = ''{'' @ stringify_members kvs @ ''}''"
| "stringify_elements [] = []"
| "stringify_elements [v] = JSON_stringify v"
| "stringify_elements (v # w # vs) = JSON_stringify v @ '','' @ stringify_elements (w # vs)"
| "stringify_members [] = []"
| "stringify_members [(k, v)] = quote k @ '':'' @ JSON_stringify v"
| "stringify_members ((k, v) # m # ms) =
     quote k @ '':'' @ JSON_stringify v @ '','' @ stringify_members (m # ms)"

subsection \<open>JSON.parse\<close>

definition is_ws :: "char \<Rightarrow> bool" where
  "is_ws c = (c = CHR 0x20 \<or> c = CHR 0x09 \<or> c = CHR 0x0A \<or> c = CHR 0x0D)"

fun skip_ws :: "string \<Rightarrow> string" where
  "skip_ws [] = []"
| "skip_ws (c # cs) = (if is_ws c then skip_ws cs else c # cs)"

definition unescape :: "char \<Rightarrow> char option" where
  "unescape e =
     (if e = CHR 0x22 then Some (CHR 0x22)
      else if e = CHR 0x5C then Some (CHR 0x5C)
      else if e = CHR ''/'' then Some (CHR ''/'')
      else if e = CHR ''b'' then Some (CHR 0x08)
      else if e = CHR ''f'' then Some (CHR 0x0C)
      else if e = CHR ''n'' then Some (CHR 0x0A)
      else if e = CHR ''r'' then Some (CHR 0x0D)
      else if e = CHR ''t'' then Some (CHR 0x09)
      else None)"

definition cons_result :: "'a \<Rightarrow> ('a list \<times> 'b) option \<Rightarrow> ('a list \<times> 'b) option" where
  "cons_result x r = (case r of None \<Rightarrow> None | Some (xs, rest) \<Rightarrow> Some (x # xs, rest))"

text \<open>
  The characters of a string literal after its opening quote, up to and including the
  closing quote. A raw control character is a syntax error. A \<open>\uXXXX\<close> escape of a code
  unit above 255 lies outside the modelled strings and is reported as a failure.
\<close>

fun parse_string_body :: "string \<Rightarrow> (string \<times> string) option" where
  "parse_string_body [] = None"
| "parse_string_body (c # cs) =
     (if c = CHR 0x22 then Some ([], cs)
      else if c = CHR 0x5C then
        (case cs of
           [] \<Rightarrow> None
         | e # cs1 \<Rightarrow>
             if e = CHR ''u'' then
               (case cs1 of
                  h1 # h2 # h3 # h4 # cs2 \<Rightarrow>
                    (case hex4 h1 h2 h3 h4 of
                       None \<Rightarrow> None
                     | Some n \<Rightarrow>
                         if n < 256 then cons_result (char_of n) (parse_string_body cs2)
                         else None)
                | _ \<Rightarrow> None)
             else
               (case unescape e of
                  None \<Rightarrow> None
                | Some d \<Rightarrow> cons_result d (parse_string_body cs1)))
      else if (of_char c :: nat) < 32 then None
      else cons_result c (parse_string_body cs))"

fun read_digits :: "nat \<Rightarrow> string \<Rightarrow> nat \<times> string" where
  "read_digits acc [] = (acc, [])"
| "read_digits acc (c # cs) =
     (if is_digit c then read_digits (acc * 10 + digit_val c) cs else (acc, c # cs))"

text \<open>
  An integer numeral. A leading zero followed by a digit is a syntax error. A fraction or
  an exponent is a floating-point numeral, outside the modelled numbers, and is reported
  as a failure.
\<close>

definition parse_nat :: "string \<Rightarrow> (nat \<times> string) option" where
  "parse_nat s =
     (case s of
        [] \<Rightarrow> None
      | c # cs \<Rightarrow>
          if \<not> is_digit c then None
          else
            (case (if c = CHR ''0'' then (0, cs) else read_digits 0 s) of
               (n, r) \<Rightarrow>
                 (case r of
                    [] \<Rightarrow> Some (n, r)
                  | d # ds \<Rightarrow>
                      if is_digit d \<or> d = CHR ''.'' \<or> d = CHR ''e'' \<or> d = CHR ''E'' then None
                      else Some (n, r))))"

definition parse_int :: "string \<Rightarrow> (int \<times> string) option" where
  "parse_int s =
     (case s of
        [] \<Rightarrow> None
      | c # cs \<Rightarrow>
          if c = CHR ''-'' then
            (case parse_nat cs of None \<Rightarrow> None | Some (n, r) \<Rightarrow> Some (- int n, r))
          else
            (case parse_nat s of None \<Rightarrow> None | Some (n, r) \<Rightarrow> Some (int n, r)))"

fun literal :: "string \<Rightarrow> json \<Rightarrow> string \<Rightarrow> (json \<times> string) option" where
  "literal [] v s = Some (v, s)"
| "literal (l # ls) v [] = None"
| "literal (l # ls) v (c # cs) = (if l = c then literal ls v cs else None)"

text \<open>
  Creating the properties of an object in source order: a repeated key keeps its first
  position and takes the later value. (JavaScript enumerates keys that are array indices
  before the others; the handlers read properties by name only, and \<open>JSON.stringify\<close>
  already writes the properties of an object in its enumeration order, so the order of
  the text is kept as it is.)
\<close>

fun set_prop :: "(string \<times> json) list \<Rightarrow> string \<Rightarrow> json \<Rightarrow> (string \<times> json) list" where
  "set_prop [] k v = [(k, v)]"
| "set_prop ((k', v') # ps) k v = (if k' = k then (k', v) # ps else (k', v') # set_prop ps k v)"

definition object_of :: "(string \<times> json) list \<Rightarrow> json" where
  "object_of ms = JObj (foldl (\<lambda>ps (k, v). set_prop ps k v) [] ms)"

text \<open>
  The recursive descent over values, array elements and object members. The first
  argument bounds the number of nested calls; \<open>JSON_parse\<close> starts it at the length
  of the text, and every call consumes a character before it recurses twice.
\<close>

fun parse_value :: "nat \<Rightarrow> string \<Rightarrow> (json \<times> string) option"
  and parse_elements :: "nat \<Rightarrow> string \<Rightarrow> (json list \<times> string) option"
  and parse_members :: "nat \<Rightarrow> string \<Rightarrow> ((string \<times> json) list \<times> string) option" where
  "parse_value 0 s = None"
| "parse_value (Suc n) s =
     (case skip_ws s of
        [] \<Rightarrow> None
      | c # cs \<Rightarrow>
          if c = CHR 0x22 then
            (case parse_string_body cs of None \<Rightarrow> None | Some (str, r) \<Rightarrow> Some (JStr str, r))
          else if c = CHR ''['' then
            (case skip_ws cs of
               [] \<Rightarrow> None
             | d # ds \<Rightarrow>
                 if d = CHR '']'' then Some (JArr [], ds)
                 else
                   (case parse_elements n cs of
                      None \<Rightarrow> None
                    | Some (vs, r) \<Rightarrow> Some (JArr vs, r)))
          else if c = CHR ''{'' then
            (case skip_ws cs of
               [] \<Rightarrow> None
             | d # ds \<Rightarrow>
                 if d = CHR ''}'' then Some (JObj [], ds)
                 else
                   (case parse_members n cs of
                      None \<Rightarrow> None
                    | Some (ms, r) \<Rightarrow> Some (object_of ms, r)))
          else if c = CHR ''n'' then literal ''ull'' JNull cs
          else if c = CHR ''t'' then literal ''rue'' (JBool True) cs
          else if c = CHR ''f'' then literal ''alse'' (JBool False) cs
          else
            (case parse_int (c # cs) of None \<Rightarrow> None | Some (i, r) \<Rightarrow> Some (JNum i, r)))"
| "parse_elements 0 s = None"
| "parse_elements (Suc n) s =
     (case parse_value n s of
        None \<Rightarrow> None
      | Some (v, r) \<Rightarrow>
          (case skip_ws r of
             [] \<Rightarrow> None
           | c # cs \<Rightarrow>
               if c = CHR '','' then cons_result v (parse_elements n cs)
               else if c = CHR '']'' then Some ([v], cs)
               else None))"
| "parse_members 0 s = None"
| "parse_members (Suc n) s =
     (case skip_ws s of
        [] \<Rightarrow> None
      | c # cs \<Rightarrow>
          if c \<noteq> CHR 0x22 then None
          else
            (case parse_string_body cs of
               None \<Rightarrow> None
             | Some (k, r) \<Rightarrow>
                 (case skip_ws r of
                    [] \<Rightarrow> None
                  | c2 # cs2 \<Rightarrow>
                      if c2 \<noteq> CHR '':'' then None
                      else
                        (case parse_value n cs2 of
                           None \<Rightarrow> None
                         | Some (v, r2) \<Rightarrow>
                             (case skip_ws r2 of
                                [] \<Rightarrow> None
                              | c3 # cs3 \<Rightarrow>
                                  if c3 = CHR '','' then cons_result (k, v) (parse_members n cs3)
                                  else if c3 = CHR ''}'' then Some ([(k, v)], cs3)
                                  else None)))))"

text \<open>
  \<open>JSON.parse\<close>: one value, surrounded by optional white space, and nothing else.
  \<open>Rejected SyntaxError\<close> is the thrown \<open>SyntaxError\<close>.
\<close>

definition JSON_parse :: "string \<Rightarrow> json settled" where
  "JSON_parse s =
     (case parse_value (Suc (length s)) s of
        None \<Rightarrow> Rejected SyntaxError
      | Some (v, r) \<Rightarrow> if skip_ws r = [] then Resolved v else Rejected SyntaxError)"

subsection \<open>Values that survive serialisation\<close>

text \<open>
  A character after which an integer numeral ends (the end of the text, a comma, a closing
  bracket), and the values \<open>JSON.stringify\<close> renders without loss: numbers are safe
  integers and an object has each key once.
\<close>

definition follows_ok :: "string \<Rightarrow> bool" where
  "follows_ok rest =
     (case rest of
        [] \<Rightarrow> True
      | d # ds \<Rightarrow> \<not> is_digit d \<and> d \<noteq> CHR ''.'' \<and> d \<noteq> CHR ''e'' \<and> d \<noteq> CHR ''E'')"

fun serializable :: "json \<Rightarrow> bool"
  and serializable_elements :: "json list \<Rightarrow> bool"
  and serializable_members :: "(string \<times> json) list \<Rightarrow> bool" where
  "serializable JNull = True"
| "serializable (JBool b) = True"
| "serializable (JNum i) = (- 9007199254740992 < i \<and> i < 9007199254740992)"
| "serializable (JStr s) = True"
| "serializable (JArr vs) = serializable_elements vs"
| "serializable (JObj kvs) = (distinct (map fst kvs) \<and> serializable_members kvs)"
| "serializable_elements [] = True"
| "serializable_elements (v # vs) = (serializable v \<and> serializable_elements vs)"
| "serializable_members [] = True"
| "serializable_members ((k, v) # ms) = (serializable v \<and> serializable_members ms)"

section \<open>The ephemeral store\<close>

text \<open>
  The Redis server as the cache helper uses it: a key holds a string and, when written with
  \<open>SETEX\<close>, the second at which it expires. Time is in seconds. An expired key reads as
  a missing one.
\<close>

type_synonym redis = "string \<rightharpoonup> (string \<times> nat option)"

definition redis_get :: "nat \<Rightarrow> redis \<Rightarrow> string \<Rightarrow> string option" where
  "redis_get now store key =
     (case store key of
        None \<Rightarrow> None
      | Some (v, None) \<Rightarrow> Some v
      | Some (v, Some expiry) \<Rightarrow> if now < expiry then Some v else None)"

definition redis_setex :: "nat \<Rightarrow> redis \<Rightarrow> string \<Rightarrow> nat \<Rightarrow> string \<Rightarrow> redis" where
  "redis_setex now store key ttl v = store(key \<mapsto> (v, Some (now + ttl)))"

definition redis_set :: "redis \<Rightarrow> string \<Rightarrow> string \<Rightarrow> redis" where
  "redis_set store key v = store(key \<mapsto> (v, None))"

definition redis_del :: "redis \<Rightarrow> string \<Rightarrow> redis" where
  "redis_del store key = store(key := None)"

text \<open>
  What the server does with one command: it executes it and replies after so many
  milliseconds, or the command fails after so many milliseconds without being executed
  (connection down, command timeout).
\<close>

datatype backend = Replies nat | Fails nat

text \<open>
  \<open>Promise.race([p, new Promise(resolve => setTimeout(() => resolve(d), 100))])\<close>: the
  command's promise \<open>p\<close> wins when it settles within 100 ms, otherwise the timer resolves
  the race with \<open>d\<close>.
\<close>

definition race_timer :: "nat \<Rightarrow> 'a settled \<Rightarrow> 'a \<Rightarrow> 'a settled" where
  "race_timer latency p d = (if latency < 100 then p else Resolved d)"

text \<open>\<open>try { body } catch (error) { handler }\<close> around an awaited computation.\<close>

definition try_catch :: "'a settled \<Rightarrow> (js_error \<Rightarrow> 'a settled) \<Rightarrow> 'a settled" where
  "try_catch body handler = (case body of Resolved v \<Rightarrow> Resolved v | Rejected e \<Rightarrow> handler e)"

subsection \<open>The Cache class\<close>

text \<open>
  \<open>Cache.get\<close>: the read raced against the timer, then \<open>value ? JSON.parse(value) : null\<close>
  (a missing key, a timer that won and an empty string all give \<open>null\<close>), all inside
  \<open>try\<close> with \<open>catch\<close> returning \<open>null\<close>.
\<close>

definition client_get :: "backend \<Rightarrow> nat \<Rightarrow> redis \<Rightarrow> string \<Rightarrow> nat \<times> string option settled" where
  "client_get b now store key =
     (case b of
        Replies latency \<Rightarrow> (latency, Resolved (redis_get now store key))
      | Fails latency \<Rightarrow> (latency, Rejected BackendError))"

definition Cache_get :: "backend \<Rightarrow> nat \<Rightarrow> redis \<Rightarrow> string \<Rightarrow> json settled" where
  "Cache_get b now store key =
     try_catch
       (case client_get b now store key of
          (latency, p) \<Rightarrow>
            (case race_timer latency p None of
               Rejected e \<Rightarrow> Rejected e
             | Resolved None \<Rightarrow> Resolved JNull
             | Resolved (Some v) \<Rightarrow> if v = [] then Resolved JNull else JSON_parse v))
       (\<lambda>error. Resolved JNull)"

text \<open>
  \<open>Cache.set\<close>: \<open>JSON.stringify(value)\<close>, then \<open>SETEX\<close> when \<open>ttlSeconds\<close> is truthy
  and \<open>SET\<close> otherwise, raced against the timer; \<open>catch\<close> swallows a failure. A command
  the server executes takes effect whether or not its reply beats the timer.
\<close>

definition client_write :: "backend \<Rightarrow> redis \<Rightarrow> redis \<Rightarrow> (nat \<times> unit settled) \<times> redis" where
  "client_write b store written =
     (case b of
        Replies latency \<Rightarrow> ((latency, Resolved ()), written)
      | Fails latency \<Rightarrow> ((latency, Rejected BackendError), store))"

definition Cache_set ::
  "backend \<Rightarrow> nat \<Rightarrow> redis \<Rightarrow> string \<Rightarrow> json \<Rightarrow> nat option \<Rightarrow> unit settled \<times> redis" where
  "Cache_set b now store key v ttlSeconds =
     (let serialized = JSON_stringify v in
      case client_write b store
             (case ttlSeconds of
                None \<Rightarrow> redis_set store key serialized
              | Some ttl \<Rightarrow>
                  if ttl = 0 then redis_set store key serialized
                  else redis_setex now store key ttl serialized) of
        ((latency, p), store') \<Rightarrow>
          (try_catch (race_timer latency p ()) (\<lambda>error. Resolved ()), store'))"

text \<open>\<open>Cache.delete\<close>: \<open>DEL\<close>, awaited without a timer; \<open>catch\<close> swallows a failure.\<close>

definition Cache_delete :: "backend \<Rightarrow> redis \<Rightarrow> string \<Rightarrow> unit settled \<times> redis" where
  "Cache_delete b store key =
     (case client_write b store (redis_del store key) of
        ((latency, p), store') \<Rightarrow> (try_catch p (\<lambda>error. Resolved ()), store'))"

section \<open>Collaborators of the handlers\<close>

text \<open>
  A user row as \<open>prisma.user.findUnique({ where: { id }, include: { tenant: true } })\<close>
  returns it. Columns the handlers only pass through are JSON values (a string or
  \<open>null\<close>); the two licensing columns and the tenant relation may be \<open>null\<close>.
\<close>

record tenant =
  tenant_name :: json
  tenant_subdomain :: json
  tenant_licensedModules :: "string list option"
  tenant_subscriptionTier :: "string option"

record user =
  user_id :: string
  user_email :: string
  user_name :: json
  user_emailVerified :: json
  user_role :: string
  user_tenantId :: json
  user_tenant :: "tenant option"

text \<open>The object handed to \<open>signToken\<close>.\<close>

record claims =
  claim_userId :: string
  claim_tenantId :: json
  claim_email :: string
  claim_role :: string
  claim_licensedModules :: "string list"
  claim_subscriptionTier :: string

text \<open>
  What a handler reads from its surroundings: the two configured client values
  (\<open>None\<close> when the variable is unset), the user lookup by the value given as \<open>id\<close>
  (which may be any value, also \<open>undefined\<close>), the token codec of the \<open>@payaid/auth\<close>
  package, and whether \<open>new URL(s)\<close> accepts a string.
\<close>

record env =
  OAUTH_CLIENT_ID :: "string option"
  OAUTH_CLIENT_SECRET :: "string option"
  findUnique :: "json option \<Rightarrow> user option settled"
  signToken :: "claims \<Rightarrow> string"
  verifyToken :: "string \<Rightarrow> json settled"
  url_parses :: "string \<Rightarrow> bool"

text \<open>
  What happens to one request from outside: how the store answers each of the cache calls
  the handler may make, and the 64 hexadecimal digits \<open>crypto.randomBytes(32)\<close> yields.
\<close>

record io =
  get_reply :: backend
  del_reply :: backend
  set_reply :: backend
  random_hex :: string

datatype location =
    Login string
  | Callback string string "string option"

datatype response =
    Json nat json
  | Redirect location

definition error_json :: "string \<Rightarrow> string \<Rightarrow> json" where
  "error_json e d = JObj [(''error'', JStr e), (''error_description'', JStr d)]"

definition env_value :: "string option \<Rightarrow> json option" where
  "env_value v = map_option JStr v"

definition modules_or_empty :: "string list option \<Rightarrow> string list" where
  "modules_or_empty ms = (case ms of None \<Rightarrow> [] | Some xs \<Rightarrow> xs)"

definition tier_or_free :: "string option \<Rightarrow> string" where
  "tier_or_free t = (case t of None \<Rightarrow> ''free'' | Some s \<Rightarrow> if s = [] then ''free'' else s)"

definition token_claims :: "user \<Rightarrow> tenant \<Rightarrow> claims" where
  "token_claims u t =
     \<lparr>claim_userId = user_id u,
      claim_tenantId = user_tenantId u,
      claim_email = user_email u,
      claim_role = user_role u,
      claim_licensedModules = modules_or_empty (tenant_licensedModules t),
      claim_subscriptionTier = tier_or_free (tenant_subscriptionTier t)\<rparr>"

definition refresh_payload :: "user \<Rightarrow> json option \<Rightarrow> json" where
  "refresh_payload u client_id =
     JStr (JSON_stringify (JObj (js_object
       [(''userId'', Some (JStr (user_id u))),
        (''tenantId'', Some (user_tenantId u)),
        (''clientId'', client_id)])))"

section \<open>The token endpoint\<close>

text \<open>The body of the \<open>refresh_token\<close> branch of \<open>POST\<close>; a rejection goes to the outer \<open>catch\<close>.\<close>

definition refresh_token_grant ::
  "env \<Rightarrow> io \<Rightarrow> nat \<Rightarrow> redis \<Rightarrow> json \<Rightarrow> json option \<Rightarrow> json option
     \<Rightarrow> response settled \<times> redis" where
  "refresh_token_grant e i now store body client_id client_secret =
     (case get_prop body ''refresh_token'' of
        None \<Rightarrow>
          (Resolved (Json 400 (error_json ''invalid_request'' ''Refresh token is required'')), store)
      | Some refresh_token \<Rightarrow>
          if falsy (Some refresh_token) then
            (Resolved (Json 400 (error_json ''invalid_request'' ''Refresh token is required'')), store)
          else if \<not> strict_eq client_id (env_value (OAUTH_CLIENT_ID e))
                  \<or> \<not> strict_eq client_secret (env_value (OAUTH_CLIENT_SECRET e)) then
            (Resolved (Json 401 (error_json ''invalid_client'' ''Invalid client credentials'')), store)
          else
            (case Cache_get (get_reply i) now store (''oauth:refresh:'' @ to_string refresh_token) of
               Rejected x \<Rightarrow> (Rejected x, store)
             | Resolved refreshData \<Rightarrow>
                 if falsy (Some refreshData) then
                   (Resolved (Json 400
                      (error_json ''invalid_grant'' ''Refresh token is invalid or expired'')), store)
                 else
                   (case findUnique e (get_prop refreshData ''userId'') of
                      Rejected x \<Rightarrow> (Rejected x, store)
                    | Resolved None \<Rightarrow>
                        (Resolved (Json 400 (error_json ''invalid_grant'' ''User not found'')), store)
                    | Resolved (Some u) \<Rightarrow>
                        (case user_tenant u of
                           None \<Rightarrow> (Rejected TypeError, store)
                         | Some t \<Rightarrow>
                             (let newToken = signToken e (token_claims u t);
                                  newRefreshToken = random_hex i in
                              case Cache_delete (del_reply i) store
                                     (''oauth:refresh:'' @ to_string refresh_token) of
                                (Rejected x, store1) \<Rightarrow> (Rejected x, store1)
                              | (Resolved _, store1) \<Rightarrow>
                                  (case Cache_set (set_reply i) now store1
                                          (''oauth:refresh:'' @ newRefreshToken)
                                          (refresh_payload u client_id) (Some 2592000) of
                                     (Rejected x, store2) \<Rightarrow> (Rejected x, store2)
                                   | (Resolved _, store2) \<Rightarrow>
                                       (Resolved (Json 200 (JObj
                                          [(''access_token'', JStr newToken),
                                           (''token_type'', JStr ''Bearer''),
                                           (''expires_in'', JNum 86400),
                                           (''refresh_token'', JStr newRefreshToken)])),
                                        store2)))))))"

text \<open>The rest of \<open>POST\<close>: the \<open>authorization_code\<close> grant.\<close>

definition authorization_code_grant ::
  "env \<Rightarrow> io \<Rightarrow> nat \<Rightarrow> redis \<Rightarrow> json option \<Rightarrow> json option \<Rightarrow> json option \<Rightarrow> json option
     \<Rightarrow> json option \<Rightarrow> response settled \<times> redis" where
  "authorization_code_grant e i now store grant_type code redirect_uri client_id client_secret =
     (if \<not> strict_eq grant_type (Some (JStr ''authorization_code'')) then
        (Resolved (Json 400 (error_json ''unsupported_grant_type''
           ''Only \"authorization_code\" and \"refresh_token\" grant types are supported'')), store)
      else if \<not> strict_eq client_id (env_value (OAUTH_CLIENT_ID e))
              \<or> \<not> strict_eq client_secret (env_value (OAUTH_CLIENT_SECRET e)) then
        (Resolved (Json 401 (error_json ''invalid_client'' ''Invalid client credentials'')), store)
      else
        (case code of
           None \<Rightarrow>
             (Resolved (Json 400
                (error_json ''invalid_request'' ''Authorization code is required'')), store)
         | Some c \<Rightarrow>
             if falsy (Some c) then
               (Resolved (Json 400
                  (error_json ''invalid_request'' ''Authorization code is required'')), store)
             else
               (case Cache_get (get_reply i) now store (''oauth:code:'' @ to_string c) of
                  Rejected x \<Rightarrow> (Rejected x, store)
                | Resolved codeData \<Rightarrow>
                    if falsy (Some codeData) then
                      (Resolved (Json 400 (error_json ''invalid_grant''
                         ''Authorization code is invalid or expired'')), store)
                    else if \<not> strict_eq redirect_uri (get_prop codeData ''redirectUri'') then
                      (Resolved (Json 400
                         (error_json ''invalid_grant'' ''redirect_uri does not match'')), store)
                    else
                      (case Cache_delete (del_reply i) store (''oauth:code:'' @ to_string c) of
                         (Rejected x, store1) \<Rightarrow> (Rejected x, store1)
                       | (Resolved _, store1) \<Rightarrow>
                           (case findUnique e (get_prop codeData ''userId'') of
                              Rejected x \<Rightarrow> (Rejected x, store1)
                            | Resolved None \<Rightarrow>
                                (Resolved (Json 400
                                   (error_json ''invalid_grant'' ''User not found'')), store1)
                            | Resolved (Some u) \<Rightarrow>
                                (case user_tenant u of
                                   None \<Rightarrow> (Rejected TypeError, store1)
                                 | Some t \<Rightarrow>
                                     (let token = signToken e (token_claims u t);
                                          refreshToken = random_hex i in
                                      case Cache_set (set_reply i) now store1
                                             (''oauth:refresh:'' @ refreshToken)
                                             (refresh_payload u client_id) (Some 2592000) of
                                        (Rejected x, store2) \<Rightarrow> (Rejected x, store2)
                                      | (Resolved _, store2) \<Rightarrow>
                                          (Resolved (Json 200 (JObj (js_object
                                             [(''access_token'', Some (JStr token)),
                                              (''token_type'', Some (JStr ''Bearer'')),
                                              (''expires_in'', Some (JNum 86400)),
                                              (''refresh_token'', Some (JStr refreshToken)),
                                              (''scope'', get_prop codeData ''scope'')]))),
                                           store2))))))))"

text \<open>
  \<open>POST /api/oauth/token\<close>. The request body is \<open>None\<close> when \<open>request.json()\<close> rejects;
  destructuring \<open>null\<close> throws. Whatever is thrown inside ends in the outer \<open>catch\<close> as
  \<open>server_error\<close>; what was written to the store before stays written.
\<close>

definition POST :: "env \<Rightarrow> io \<Rightarrow> nat \<Rightarrow> redis \<Rightarrow> json option \<Rightarrow> response \<times> redis" where
  "POST e i now store request_json =
     (case (case request_json of
              None \<Rightarrow> (Rejected SyntaxError, store)
            | Some body \<Rightarrow>
                if body = JNull then (Rejected TypeError, store)
                else
                  (let grant_type = get_prop body ''grant_type'';
                       code = get_prop body ''code'';
                       redirect_uri = get_prop body ''redirect_uri'';
                       client_id = get_prop body ''client_id'';
                       client_secret = get_prop body ''client_secret'' in
                   if strict_eq grant_type (Some (JStr ''refresh_token'')) then
                     refresh_token_grant e i now store body client_id client_secret
                   else
                     authorization_code_grant e i now store grant_type code redirect_uri
                       client_id client_secret)) of
        (Resolved r, store') \<Rightarrow> (r, store')
      | (Rejected x, store') \<Rightarrow>
          (Json 500 (error_json ''server_error'' ''An error occurred during token exchange''),
           store'))"

subsection \<open>The exchange, one awaited operation at a time\<close>

text \<open>
  Requests are served by one thread: the code of a handler runs without interruption up
  to its next \<open>await\<close>, and other requests run while it waits. The
  \<open>authorization_code\<close> branch awaits four operations in turn: \<open>cache.get\<close>,
  \<open>cache.delete\<close>, \<open>findUnique\<close> and \<open>cache.set\<close>. A stage records where a request
  stands and the local variables it holds there.
\<close>

datatype stage =
    Start
  | Deleting json json
  | Finding json
  | Storing json user tenant
  | Finished response

definition thrown :: response where
  "thrown = Json 500 (error_json ''server_error'' ''An error occurred during token exchange'')"

fun exchange_step :: "env \<Rightarrow> io \<Rightarrow> nat \<Rightarrow> json \<Rightarrow> stage \<Rightarrow> redis \<Rightarrow> stage \<times> redis" where
  "exchange_step e i now body Start store =
     (if \<not> strict_eq (get_prop body ''grant_type'') (Some (JStr ''authorization_code'')) then
        (Finished (Json 400 (error_json ''unsupported_grant_type''
           ''Only \"authorization_code\" and \"refresh_token\" grant types are supported'')), store)
      else if \<not> strict_eq (get_prop body ''client_id'') (env_value (OAUTH_CLIENT_ID e))
              \<or> \<not> strict_eq (get_prop body ''client_secret'')
                     (env_value (OAUTH_CLIENT_SECRET e)) then
        (Finished (Json 401 (error_json ''invalid_client'' ''Invalid client credentials'')), store)
      else
        (case get_prop body ''code'' of
           None \<Rightarrow>
             (Finished (Json 400
                (error_json ''invalid_request'' ''Authorization code is required'')), store)
         | Some c \<Rightarrow>
             if falsy (Some c) then
               (Finished (Json 400
                  (error_json ''invalid_request'' ''Authorization code is required'')), store)
             else
               (case Cache_get (get_reply i) now store (''oauth:code:'' @ to_string c) of
                  Rejected x \<Rightarrow> (Finished thrown, store)
                | Resolved codeData \<Rightarrow>
                    if falsy (Some codeData) then
                      (Finished (Json 400 (error_json ''invalid_grant''
                         ''Authorization code is invalid or expired'')), store)
                    else if \<not> strict_eq (get_prop body ''redirect_uri'')
                                 (get_prop codeData ''redirectUri'') then
                      (Finished (Json 400
                         (error_json ''invalid_grant'' ''redirect_uri does not match'')), store)
                    else (Deleting c codeData, store))))"
| "exchange_step e i now body (Deleting c codeData) store =
     (case Cache_delete (del_reply i) store (''oauth:code:'' @ to_string c) of
        (Rejected x, store1) \<Rightarrow> (Finished thrown, store1)
      | (Resolved _, store1) \<Rightarrow> (Finding codeData, store1))"
| "exchange_step e i now body (Finding codeData) store =
     (case findUnique e (get_prop codeData ''userId'') of
        Rejected x \<Rightarrow> (Finished thrown, store)
      | Resolved None \<Rightarrow>
          (Finished (Json 400 (error_json ''invalid_grant'' ''User not found'')), store)
      | Resolved (Some u) \<Rightarrow>
          (case user_tenant u of
             None \<Rightarrow> (Finished thrown, store)
           | Some t \<Rightarrow> (Storing codeData u t, store)))"
| "exchange_step e i now body (Storing codeData u t) store =
     (let token = signToken e (token_claims u t);
          refreshToken = random_hex i in
      case Cache_set (set_reply i) now store (''oauth:refresh:'' @ refreshToken)
             (refresh_payload u (get_prop body ''client_id'')) (Some 2592000) of
        (Rejected x, store2) \<Rightarrow> (Finished thrown, store2)
      | (Resolved _, store2) \<Rightarrow>
          (Finished (Json 200 (JObj (js_object
             [(''access_token'', Some (JStr token)),
              (''token_type'', Some (JStr ''Bearer'')),
              (''expires_in'', Some (JNum 86400)),
              (''refresh_token'', Some (JStr refreshToken)),
              (''scope'', get_prop codeData ''scope'')]))),
           store2))"
| "exchange_step e i now body (Finished r) store = (Finished r, store)"



section \<open>The authorization endpoint\<close>

record authorize_request =
  q_client_id :: "string option"
  q_redirect_uri :: "string option"
  q_response_type :: "string option"
  q_state :: "string option"
  q_scope :: "string option"
  cookie_payaid_token :: "string option"
  request_url :: string

definition code_payload ::
  "user \<Rightarrow> string \<Rightarrow> string option \<Rightarrow> string \<Rightarrow> json" where
  "code_payload u redirectUri clientId scope =
     JStr (JSON_stringify (JObj
       [(''userId'', JStr (user_id u)),
        (''tenantId'', user_tenantId u),
        (''redirectUri'', JStr redirectUri),
        (''clientId'', (case clientId of None \<Rightarrow> JNull | Some s \<Rightarrow> JStr s)),
        (''scope'', JStr scope)]))"

text \<open>The inner \<open>try\<close> block of the handler, entered with the cookie's token.\<close>

definition issue_code ::
  "env \<Rightarrow> io \<Rightarrow> nat \<Rightarrow> redis \<Rightarrow> authorize_request \<Rightarrow> string \<Rightarrow> string \<Rightarrow> string
     \<Rightarrow> response settled \<times> redis" where
  "issue_code e i now store req token redirectUri scope =
     (case verifyToken e token of
        Rejected x \<Rightarrow> (Rejected x, store)
      | Resolved payload \<Rightarrow>
          (case findUnique e (get_prop payload ''userId'') of
             Rejected x \<Rightarrow> (Rejected x, store)
           | Resolved None \<Rightarrow> (Rejected OtherError, store)
           | Resolved (Some u) \<Rightarrow>
               (let authCode = random_hex i in
                case Cache_set (set_reply i) now store (''oauth:code:'' @ authCode)
                       (code_payload u redirectUri (q_client_id req) scope) (Some 300) of
                  (Rejected x, store1) \<Rightarrow> (Rejected x, store1)
                | (Resolved _, store1) \<Rightarrow>
                    if \<not> url_parses e redirectUri then (Rejected TypeError, store1)
                    else
                      (Resolved (Redirect (Callback redirectUri authCode
                         (case q_state req of
                            None \<Rightarrow> None
                          | Some s \<Rightarrow> if s = [] then None else Some s))),
                       store1))))"

text \<open>
  \<open>GET /api/oauth/authorize\<close>. The inner \<open>catch\<close> turns everything thrown while the
  code is issued into the redirect to the login page.
\<close>

definition GET_authorize ::
  "env \<Rightarrow> io \<Rightarrow> nat \<Rightarrow> redis \<Rightarrow> authorize_request \<Rightarrow> response \<times> redis" where
  "GET_authorize e i now store req =
     (let scope = (case q_scope req of
                     None \<Rightarrow> ''openid profile email''
                   | Some s \<Rightarrow> if s = [] then ''openid profile email'' else s) in
      if q_client_id req = None \<or> q_client_id req \<noteq> OAUTH_CLIENT_ID e then
        (Json 400 (error_json ''invalid_client'' ''Invalid client_id''), store)
      else if q_response_type req \<noteq> Some ''code'' then
        (Json 400 (error_json ''unsupported_response_type''
           ''Only \"code\" response type is supported''), store)
      else
        (case q_redirect_uri req of
           None \<Rightarrow> (Json 400 (error_json ''invalid_request'' ''redirect_uri is required''), store)
         | Some redirectUri \<Rightarrow>
             if redirectUri = [] then
               (Json 400 (error_json ''invalid_request'' ''redirect_uri is required''), store)
             else
               (case cookie_payaid_token req of
                  None \<Rightarrow> (Redirect (Login (request_url req)), store)
                | Some token \<Rightarrow>
                    if token = [] then (Redirect (Login (request_url req)), store)
                    else
                      (case issue_code e i now store req token redirectUri scope of
                         (Resolved r, store') \<Rightarrow> (r, store')
                       | (Rejected x, store') \<Rightarrow>
                           (Redirect (Login (request_url req)), store')))))"

section \<open>The userinfo endpoint\<close>

definition userinfo_body :: "user \<Rightarrow> json" where
  "userinfo_body u =
     JObj (js_object
       [(''sub'', Some (JStr (user_id u))),
        (''email'', Some (JStr (user_email u))),
        (''name'', Some (user_name u)),
        (''email_verified'',
           Some (if falsy (Some (user_emailVerified u)) then JBool False
                 else user_emailVerified u)),
        (''role'', Some (JStr (user_role u))),
        (''tenant_id'', Some (user_tenantId u)),
        (''tenant_name'', map_option tenant_name (user_tenant u)),
        (''tenant_subdomain'', map_option tenant_subdomain (user_tenant u)),
        (''licensed_modules'',
           Some (JArr (map JStr (modules_or_empty
             (case user_tenant u of None \<Rightarrow> None | Some t \<Rightarrow> tenant_licensedModules t))))),
        (''subscription_tier'',
           Some (JStr (tier_or_free
             (case user_tenant u of None \<Rightarrow> None | Some t \<Rightarrow> tenant_subscriptionTier t))))])"

text \<open>
  \<open>GET /api/oauth/userinfo\<close>, given the \<open>authorization\<close> header. Everything thrown
  inside the inner \<open>try\<close> (by \<open>verifyToken\<close> or by the lookup) is answered
  \<open>invalid_token\<close>.
\<close>

definition GET_userinfo :: "env \<Rightarrow> string option \<Rightarrow> response" where
  "GET_userinfo e authHeader =
     (case authHeader of
        None \<Rightarrow>
          Json 401 (error_json ''unauthorized'' ''Missing or invalid authorization header'')
      | Some h \<Rightarrow>
          if take 7 h \<noteq> ''Bearer '' then
            Json 401 (error_json ''unauthorized'' ''Missing or invalid authorization header'')
          else
            (let token = drop 7 h in
             case (case verifyToken e token of
                     Rejected x \<Rightarrow> Rejected x
                   | Resolved payload \<Rightarrow>
                       (case findUnique e (get_prop payload ''userId'') of
                          Rejected x \<Rightarrow> Rejected x
                        | Resolved None \<Rightarrow>
                            Resolved (Json 404 (error_json ''user_not_found'' ''User not found''))
                        | Resolved (Some u) \<Rightarrow> Resolved (Json 200 (userinfo_body u)))) of
               Resolved r \<Rightarrow> r
             | Rejected x \<Rightarrow>
                 Json 401 (error_json ''invalid_token'' ''Invalid or expired token'')))"

section \<open>Stores the handlers write\<close>


text \<open>
  Every entry of such a store is the JSON text of a string: both handlers hand
  \<open>Cache.set\<close> a text, which it serialises as a string literal.
\<close>

definition only_texts :: "redis \<Rightarrow> bool" where
  "only_texts store = (\<forall>key v expiry. store key = Some (v, expiry) \<longrightarrow> (\<exists>s. v = quote s))"

text \<open>
  Outcomes of an exchange: answered with status 200; answered \<open>invalid_grant\<close> with
  status 400; answered at all. And what a request in flight holds while every entry of
  the store is the text of a string: what it read is a string, and it never reaches the
  write of a refresh token.
\<close>

fun succeeded :: "stage \<Rightarrow> bool" where
  "succeeded (Finished (Json status body)) = (status = 200)"
| "succeeded st = False"



fun holds_text :: "stage \<Rightarrow> bool" where
  "holds_text Start = True"
| "holds_text (Deleting c (JStr s)) = True"
| "holds_text (Finding (JStr s)) = True"
| "holds_text (Finished r) = (\<not> succeeded (Finished r))"
| "holds_text st = False"


section \<open>An example deployment\<close>

text \<open>
  \<open>prisma.user.findUnique\<close> over a table of users keyed by \<open>id\<close>: Prisma refuses a
  \<open>where\<close> whose \<open>id\<close> is \<open>undefined\<close> or not a string with a validation error.
\<close>

definition prisma_findUnique :: "(string \<rightharpoonup> user) \<Rightarrow> json option \<Rightarrow> user option settled" where
  "prisma_findUnique table idv =
     (case idv of Some (JStr s) \<Rightarrow> Resolved (table s) | _ \<Rightarrow> Rejected ValidationError)"

definition demo_tenant :: tenant where
  "demo_tenant =
     \<lparr>tenant_name = JStr ''Acme'', tenant_subdomain = JStr ''acme'',
      tenant_licensedModules = Some [''crm'', ''invoicing''],
      tenant_subscriptionTier = Some ''starter''\<rparr>"

definition demo_user :: user where
  "demo_user =
     \<lparr>user_id = ''u1'', user_email = ''a@b.c'', user_name = JStr ''Ann'',
      user_emailVerified = JNull, user_role = ''owner'', user_tenantId = JStr ''t1'',
      user_tenant = Some demo_tenant\<rparr>"

definition demo_signToken :: "claims \<Rightarrow> string" where
  "demo_signToken c = ''jwt:'' @ claim_userId c @ '':'' @ concat (claim_licensedModules c)"

text \<open>
  The session token of user \<open>u1\<close> was signed when the tenant was licensed for \<open>crm\<close>
  only, on the free tier.
\<close>

definition demo_verifyToken :: "string \<Rightarrow> json settled" where
  "demo_verifyToken t =
     (if t = ''session-u1'' then
        Resolved (JObj [(''userId'', JStr ''u1''), (''tenantId'', JStr ''t1''),
                        (''licensedModules'', JArr [JStr ''crm'']),
                        (''subscriptionTier'', JStr ''free'')])
      else Rejected OtherError)"

definition demo_env :: env where
  "demo_env =
     \<lparr>OAUTH_CLIENT_ID = Some ''X'', OAUTH_CLIENT_SECRET = Some ''S'',
      findUnique = prisma_findUnique [''u1'' \<mapsto> demo_user],
      signToken = demo_signToken, verifyToken = demo_verifyToken,
      url_parses = (\<lambda>s. True)\<rparr>"

text \<open>Three draws of \<open>crypto.randomBytes(32).toString('hex')\<close>.\<close>

definition hex_a :: string where
  "hex_a = ''a1a1a1a1a1a1a1a1a1a1a1a1a1a1a1a1a1a1a1a1a1a1a1a1a1a1a1a1a1a1a1a1''"

definition hex_b :: string where
  "hex_b = ''b2b2b2b2b2b2b2b2b2b2b2b2b2b2b2b2b2b2b2b2b2b2b2b2b2b2b2b2b2b2b2b2''"

definition hex_c :: string where
  "hex_c = ''c3c3c3c3c3c3c3c3c3c3c3c3c3c3c3c3c3c3c3c3c3c3c3c3c3c3c3c3c3c3c3c3''"

definition demo_io :: "string \<Rightarrow> io" where
  "demo_io random =
     \<lparr>get_reply = Replies 3, del_reply = Replies 3, set_reply = Replies 3,
      random_hex = random\<rparr>"

definition demo_authorize :: authorize_request where
  "demo_authorize =
     \<lparr>q_client_id = Some ''X'', q_redirect_uri = Some ''https://m.example.com/cb'',
      q_response_type = Some ''code'', q_state = None, q_scope = None,
      cookie_payaid_token = Some ''session-u1'',
      request_url = ''https://core.example.com/api/oauth/authorize''\<rparr>"

text \<open>
  The store after \<open>demo_authorize\<close> was served at second 1000 with the draw \<open>hex_a\<close>,
  and the bodies of token requests by the configured client.
\<close>

definition issued_store :: redis where
  "issued_store = snd (GET_authorize demo_env (demo_io hex_a) 1000 Map.empty demo_authorize)"

definition exchange_body :: "string \<Rightarrow> (string \<times> json) list \<Rightarrow> json" where
  "exchange_body code extra =
     JObj ([(''grant_type'', JStr ''authorization_code''), (''code'', JStr code),
            (''client_id'', JStr ''X''), (''client_secret'', JStr ''S'')] @ extra)"

definition refresh_body :: "string \<Rightarrow> json" where
  "refresh_body r =
     JObj [(''grant_type'', JStr ''refresh_token''), (''refresh_token'', JStr r),
           (''client_id'', JStr ''X''), (''client_secret'', JStr ''S'')]"

section \<open>Parsing what was serialised\<close>

text \<open>
  \<open>JSON.parse\<close> inverts \<open>JSON.stringify\<close> on serialisable values. The proof follows
  the printer: digits, string literals, numerals, then values, elements and members
  together.
\<close>

lemma is_digit_digit_char: "d < 10 \<Longrightarrow> is_digit (digit_char d)"
  by (simp add: is_digit_def digit_char_def)

lemma digit_val_digit_char: "d < 10 \<Longrightarrow> digit_val (digit_char d) = d"
  by (simp add: digit_val_def digit_char_def)

lemma hex_val_hex_char: "d < 16 \<Longrightarrow> hex_val (hex_char d) = Some d"
  by (simp add: hex_val_def hex_char_def Let_def)

lemma hex_char_zero: "hex_val (CHR ''0'') = Some 0"
  by (simp add: hex_val_def)

lemma parse_quote_char:
  "parse_string_body (quote_char c @ rest) = cons_result c (parse_string_body rest)"
proof -
  have small: "of_char c < (32::nat) \<Longrightarrow> (of_char c :: nat) div 16 < 16 \<and> (of_char c :: nat) mod 16 < 16"
    by simp
  have recomb: "((of_char c :: nat) div 16) * 16 + (of_char c :: nat) mod 16 = of_char c"
    by simp
  show ?thesis
    by (auto simp: quote_char_def unescape_def hex4_def hex_char_zero hex_val_hex_char small recomb)
qed

lemma parse_string_body_quoted:
  "parse_string_body (concat (map quote_char s) @ CHR 0x22 # rest) = Some (s, rest)"
  by (induction s) (simp_all add: parse_quote_char cons_result_def)

lemma show_nat_digits: "read_digits acc (show_nat n @ rest) = read_digits (acc * 10 ^ length (show_nat n) + n) rest"
proof (induction n arbitrary: acc rest rule: show_nat.induct)
  case (1 n)
  show ?case
  proof (cases "n < 10")
    case True
    then show ?thesis
      by (simp add: show_nat.simps [of n] is_digit_digit_char digit_val_digit_char)
  next
    case False
    have "read_digits acc (show_nat n @ rest) =
          read_digits acc (show_nat (n div 10) @ (digit_char (n mod 10) # rest))"
      using False by (simp add: show_nat.simps [of n])
    also have "\<dots> = read_digits (acc * 10 ^ length (show_nat (n div 10)) + n div 10) (digit_char (n mod 10) # rest)"
      using 1 False by simp
    also have "\<dots> = read_digits ((acc * 10 ^ length (show_nat (n div 10)) + n div 10) * 10 + n mod 10) rest"
      by (simp add: is_digit_digit_char digit_val_digit_char)
    also have "(acc * 10 ^ length (show_nat (n div 10)) + n div 10) * 10 + n mod 10
               = acc * 10 ^ length (show_nat n) + n"
      using False by (simp add: show_nat.simps [of n] algebra_simps)
    finally show ?thesis .
  qed
qed

lemma show_nat_head:
  "\<exists>d ds. show_nat n = d # ds \<and> is_digit d \<and> (d = CHR ''0'' \<longrightarrow> n = 0)"
proof (induction n rule: show_nat.induct)
  case (1 n)
  show ?case
  proof (cases "n < 10")
    case True
    have "digit_char n = CHR ''0'' \<Longrightarrow> n = 0"
      using True digit_val_digit_char [of n] by (simp add: digit_val_def)
    then show ?thesis
      using True by (simp add: show_nat.simps [of n] is_digit_digit_char)
  next
    case False
    then obtain d ds where "show_nat (n div 10) = d # ds" "is_digit d" "d = CHR ''0'' \<longrightarrow> n div 10 = 0"
      using 1 by blast
    moreover have "n div 10 \<noteq> 0" using False by simp
    ultimately show ?thesis
      using False by (auto simp add: show_nat.simps [of n])
  qed
qed

lemma digit_char_0: "digit_char 0 = CHR ''0''"
  by (simp add: digit_char_def char_of_eq_iff)

lemma read_digits_stop: "follows_ok rest \<Longrightarrow> read_digits acc rest = (acc, rest)"
  by (cases rest) (simp_all add: follows_ok_def)

lemma parse_nat_show_nat:
  assumes "follows_ok rest"
  shows "parse_nat (show_nat n @ rest) = Some (n, rest)"
proof -
  obtain d ds where h: "show_nat n = d # ds" "is_digit d" "d = CHR ''0'' \<longrightarrow> n = 0"
    using show_nat_head by blast
  show ?thesis
  proof (cases "d = CHR ''0''")
    case True
    then have n0: "n = 0" using h by simp
    then have "show_nat n = ''0''" by (simp add: show_nat.simps [of 0] digit_char_0)
    then show ?thesis
      using assms n0 by (cases rest) (simp_all add: parse_nat_def follows_ok_def is_digit_def)
  next
    case False
    have "read_digits 0 (show_nat n @ rest) = (n, rest)"
      using assms by (simp add: show_nat_digits read_digits_stop)
    then have "read_digits 0 (d # ds @ rest) = (n, rest)"
      using h by simp
    then show ?thesis
      using h False assms
      by (cases rest) (simp_all add: parse_nat_def follows_ok_def del: read_digits.simps)
  qed
qed

lemma parse_int_show_int:
  assumes "follows_ok rest"
  shows "parse_int (show_int i @ rest) = Some (i, rest)"
proof (cases "i < 0")
  case True
  then show ?thesis
    using parse_nat_show_nat [OF assms, of "nat (- i)"]
    by (simp add: parse_int_def show_int_def)
next
  case False
  obtain d ds where h: "show_nat (nat i) = d # ds" "is_digit d"
    using show_nat_head by blast
  then have "d \<noteq> CHR ''-''" by (auto simp: is_digit_def)
  then show ?thesis
    using False h parse_nat_show_nat [OF assms, of "nat i"]
    by (simp add: parse_int_def show_int_def)
qed

lemma set_prop_fresh: "k \<notin> fst ` set ps \<Longrightarrow> set_prop ps k v = ps @ [(k, v)]"
  by (induction ps) auto

lemma foldl_set_prop_distinct:
  "distinct (map fst ps @ map fst ms) \<Longrightarrow>
   foldl (\<lambda>ps (k, v). set_prop ps k v) ps ms = ps @ ms"
proof (induction ms arbitrary: ps)
  case Nil
  then show ?case by simp
next
  case (Cons m ms)
  obtain k v where m: "m = (k, v)" by (cases m)
  have "set_prop ps k v = ps @ [(k, v)]"
    using Cons.prems m by (intro set_prop_fresh) auto
  moreover have "distinct (map fst (ps @ [(k, v)]) @ map fst ms)"
    using Cons.prems m by auto
  ultimately show ?case
    using Cons.IH [of "ps @ [(k, v)]"] m by simp
qed

lemma object_of_distinct: "distinct (map fst ms) \<Longrightarrow> object_of ms = JObj ms"
  using foldl_set_prop_distinct [of "[]" ms] by (simp add: object_of_def)

lemma quote_head: "quote s = CHR 0x22 # concat (map quote_char s) @ [CHR 0x22]"
  by (simp add: quote_def)

lemma stringify_head:
  "\<exists>c cs. JSON_stringify v = c # cs \<and> \<not> is_ws c \<and> c \<noteq> CHR '']'' \<and> c \<noteq> CHR ''}''"
proof (cases v)
  case (JNum i)
  obtain d ds where "show_nat (nat (if i < 0 then - i else i)) = d # ds" "is_digit d"
    using show_nat_head by blast
  then show ?thesis
    using JNum by (auto simp: show_int_def is_ws_def is_digit_def)
qed (auto simp: is_ws_def quote_def)

lemma stringify_elements_head:
  "vs \<noteq> [] \<Longrightarrow>
   \<exists>c cs. stringify_elements vs = c # cs \<and> \<not> is_ws c \<and> c \<noteq> CHR '']''"
proof (cases vs)
  case Nil
  then show "vs \<noteq> [] \<Longrightarrow> ?thesis" by simp
next
  case (Cons v ws)
  obtain c cs where "JSON_stringify v = c # cs" "\<not> is_ws c" "c \<noteq> CHR '']''"
    using stringify_head by blast
  then show ?thesis using Cons by (cases ws) auto
qed

lemma stringify_members_head:
  "kvs \<noteq> [] \<Longrightarrow> \<exists>cs. stringify_members kvs = CHR 0x22 # cs"
proof (cases kvs)
  case Nil
  then show "kvs \<noteq> [] \<Longrightarrow> ?thesis" by simp
next
  case (Cons m ms)
  then show ?thesis by (cases m; cases ms) (auto simp: quote_def)
qed

lemma follows_ok_simps [simp]:
  "follows_ok []" "follows_ok (CHR '','' # r)" "follows_ok (CHR '']'' # r)" "follows_ok (CHR ''}'' # r)"
  by (simp_all add: follows_ok_def is_digit_def)

lemma not_ws_simps [simp]:
  "\<not> is_ws (CHR '','')" "\<not> is_ws (CHR '']'')" "\<not> is_ws (CHR ''}'')" "\<not> is_ws (CHR '':'')"
  "\<not> is_ws (CHR 0x22)" "\<not> is_ws (CHR ''['')" "\<not> is_ws (CHR ''{'')"
  "\<not> is_ws (CHR ''n'')" "\<not> is_ws (CHR ''t'')" "\<not> is_ws (CHR ''f'')"
  by (simp_all add: is_ws_def)

lemma parse_value_atoms:
  "parse_value (Suc m) (''null'' @ rest) = Some (JNull, rest)"
  "parse_value (Suc m) (''true'' @ rest) = Some (JBool True, rest)"
  "parse_value (Suc m) (''false'' @ rest) = Some (JBool False, rest)"
  by (simp_all add: is_ws_def)

lemma parse_value_string:
  "parse_value (Suc m) (quote s @ rest) = Some (JStr s, rest)"
  by (simp add: quote_def parse_string_body_quoted)

lemma parse_value_number:
  assumes "follows_ok rest"
  shows "parse_value (Suc m) (show_int i @ rest) = Some (JNum i, rest)"
proof -
  obtain d ds where h: "show_nat (nat (if i < 0 then - i else i)) = d # ds" "is_digit d"
    using show_nat_head by blast
  obtain c cs where c: "show_int i = c # cs" "c = CHR ''-'' \<or> is_digit c"
    using h by (cases "i < 0") (auto simp: show_int_def)
  then have nots: "\<not> is_ws c" "c \<noteq> CHR 0x22" "c \<noteq> CHR ''[''" "c \<noteq> CHR ''{''"
      "c \<noteq> CHR ''n''" "c \<noteq> CHR ''t''" "c \<noteq> CHR ''f''"
    by (auto simp: is_ws_def is_digit_def)
  have "parse_int (c # cs @ rest) = Some (i, rest)"
    using parse_int_show_int [OF assms, of i] c by simp
  then show ?thesis
    using c nots by simp
qed

lemma parse_stringify_mutual:
  "serializable v \<longrightarrow>
     (\<forall>n rest. length (JSON_stringify v) \<le> n \<longrightarrow> follows_ok rest \<longrightarrow>
        parse_value n (JSON_stringify v @ rest) = Some (v, rest))"
  "serializable_elements vs \<longrightarrow> vs \<noteq> [] \<longrightarrow>
     (\<forall>n rest. length (stringify_elements vs) < n \<longrightarrow>
        parse_elements n (stringify_elements vs @ CHR '']'' # rest) = Some (vs, rest))"
  "serializable_members kvs \<longrightarrow> kvs \<noteq> [] \<longrightarrow>
     (\<forall>n rest. length (stringify_members kvs) < n \<longrightarrow>
        parse_members n (stringify_members kvs @ CHR ''}'' # rest) = Some (kvs, rest))"
proof (induction v and vs and kvs rule: JSON_stringify_stringify_elements_stringify_members.induct)
  case 1
  show ?case
  proof (intro impI allI)
    fix n rest assume "length (JSON_stringify JNull) \<le> n"
    then obtain m where "n = Suc m" by (cases n) auto
    then show "parse_value n (JSON_stringify JNull @ rest) = Some (JNull, rest)"
      using parse_value_atoms(1) by simp
  qed
next
  case (2 b)
  show ?case
  proof (intro impI allI)
    fix n rest assume "length (JSON_stringify (JBool b)) \<le> n"
    then obtain m where "n = Suc m" by (cases n) (auto split: if_splits)
    then show "parse_value n (JSON_stringify (JBool b) @ rest) = Some (JBool b, rest)"
      using parse_value_atoms(2,3) by (cases b) simp_all
  qed
next
  case (3 i)
  show ?case
  proof (intro impI allI)
    fix n rest assume len: "length (JSON_stringify (JNum i)) \<le> n" and f: "follows_ok rest"
    obtain c cs where "JSON_stringify (JNum i) = c # cs" using stringify_head by blast
    then obtain m where "n = Suc m" using len by (cases n) auto
    then show "parse_value n (JSON_stringify (JNum i) @ rest) = Some (JNum i, rest)"
      using parse_value_number [OF f] by simp
  qed
next
  case (4 s)
  show ?case
  proof (intro impI allI)
    fix n rest assume len: "length (JSON_stringify (JStr s)) \<le> n"
    then obtain m where "n = Suc m" by (cases n) (auto simp: quote_def)
    then show "parse_value n (JSON_stringify (JStr s) @ rest) = Some (JStr s, rest)"
      using parse_value_string by simp
  qed
next
  case (5 vs)
  show ?case
  proof (intro impI allI)
    fix n rest
    assume ser: "serializable (JArr vs)" and len: "length (JSON_stringify (JArr vs)) \<le> n"
    then obtain m where n: "n = Suc m" by (cases n) auto
    show "parse_value n (JSON_stringify (JArr vs) @ rest) = Some (JArr vs, rest)"
    proof (cases "vs = []")
      case True
      then show ?thesis using n by (simp add: is_ws_def)
    next
      case False
      obtain c cs where h: "stringify_elements vs = c # cs" "\<not> is_ws c" "c \<noteq> CHR '']''"
        using stringify_elements_head [OF False] by blast
      have "length (stringify_elements vs) < m" using len n by simp
      then have "parse_elements m (stringify_elements vs @ CHR '']'' # rest) = Some (vs, rest)"
        using 5 ser False by simp
      then show ?thesis
        using n h by (simp add: is_ws_def)
    qed
  qed
next
  case (6 kvs)
  show ?case
  proof (intro impI allI)
    fix n rest
    assume ser: "serializable (JObj kvs)" and len: "length (JSON_stringify (JObj kvs)) \<le> n"
    then obtain m where n: "n = Suc m" by (cases n) auto
    show "parse_value n (JSON_stringify (JObj kvs) @ rest) = Some (JObj kvs, rest)"
    proof (cases "kvs = []")
      case True
      then show ?thesis using n by (simp add: is_ws_def)
    next
      case False
      obtain cs where h: "stringify_members kvs = CHR 0x22 # cs"
        using stringify_members_head [OF False] by blast
      have "length (stringify_members kvs) < m" using len n by simp
      then have "parse_members m (stringify_members kvs @ CHR ''}'' # rest) = Some (kvs, rest)"
        using 6 ser False by simp
      then show ?thesis
        using n h ser by (simp add: is_ws_def object_of_distinct)
    qed
  qed
next
  case 7
  show ?case by simp
next
  case (8 v)
  show ?case
  proof (intro impI allI)
    fix n rest
    assume ser: "serializable_elements [v]" and len: "length (stringify_elements [v]) < n"
    then obtain m where n: "n = Suc m" by (cases n) auto
    have "parse_value m (JSON_stringify v @ CHR '']'' # rest) = Some (v, CHR '']'' # rest)"
      using 8 ser len n by simp
    then show "parse_elements n (stringify_elements [v] @ CHR '']'' # rest) = Some ([v], rest)"
      using n by simp
  qed
next
  case (9 v w vs)
  show ?case
  proof (intro impI allI)
    fix n rest
    assume ser: "serializable_elements (v # w # vs)"
      and len: "length (stringify_elements (v # w # vs)) < n"
    then obtain m where n: "n = Suc m" by (cases n) auto
    have "parse_value m (JSON_stringify v @ CHR '','' # stringify_elements (w # vs) @ CHR '']'' # rest)
          = Some (v, CHR '','' # stringify_elements (w # vs) @ CHR '']'' # rest)"
      using 9(1) ser len n by simp
    moreover have "parse_elements m (stringify_elements (w # vs) @ CHR '']'' # rest) = Some (w # vs, rest)"
      using 9(2) ser len n by simp
    ultimately show "parse_elements n (stringify_elements (v # w # vs) @ CHR '']'' # rest)
                     = Some (v # w # vs, rest)"
      using n by (simp add: cons_result_def)
  qed
next
  case 10
  show ?case by simp
next
  case (11 k v)
  show ?case
  proof (intro impI allI)
    fix n rest
    assume ser: "serializable_members [(k, v)]" and len: "length (stringify_members [(k, v)]) < n"
    then obtain m where n: "n = Suc m" by (cases n) auto
    have "parse_value m (JSON_stringify v @ CHR ''}'' # rest) = Some (v, CHR ''}'' # rest)"
      using 11 ser len n by simp
    then show "parse_members n (stringify_members [(k, v)] @ CHR ''}'' # rest) = Some ([(k, v)], rest)"
      using n by (simp add: quote_def parse_string_body_quoted)
  qed
next
  case (12 k v m ms)
  show ?case
  proof (intro impI allI)
    fix n rest
    assume ser: "serializable_members ((k, v) # m # ms)"
      and len: "length (stringify_members ((k, v) # m # ms)) < n"
    then obtain j where n: "n = Suc j" by (cases n) auto
    have "parse_value j (JSON_stringify v @ CHR '','' # stringify_members (m # ms) @ CHR ''}'' # rest)
          = Some (v, CHR '','' # stringify_members (m # ms) @ CHR ''}'' # rest)"
      using 12(1) ser len n by simp
    moreover have "parse_members j (stringify_members (m # ms) @ CHR ''}'' # rest) = Some (m # ms, rest)"
      using 12(2) ser len n by simp
    ultimately show "parse_members n (stringify_members ((k, v) # m # ms) @ CHR ''}'' # rest)
                     = Some ((k, v) # m # ms, rest)"
      using n by (simp add: quote_def parse_string_body_quoted cons_result_def)
  qed
qed

lemma JSON_parse_stringify:
  assumes "serializable v"
  shows "JSON_parse (JSON_stringify v) = Resolved v"
proof -
  have "length (JSON_stringify v) \<le> Suc (length (JSON_stringify v))" by simp
  then have "parse_value (Suc (length (JSON_stringify v))) (JSON_stringify v @ []) = Some (v, [])"
    using parse_stringify_mutual(1) [of v] assms follows_ok_simps(1) by blast
  then show ?thesis
    by (simp add: JSON_parse_def del: parse_value.simps)
qed

lemma JSON_stringify_nonempty: "JSON_stringify v \<noteq> []"
  using stringify_head [of v] by auto

section \<open>The cache helper\<close>

lemma strict_eq_string [simp]: "strict_eq x (Some (JStr s)) = (x = Some (JStr s))"
proof (cases x)
  case None
  then show ?thesis by simp
next
  case (Some v)
  then show ?thesis by (cases v) simp_all
qed

lemma strict_eq_undefined [simp]: "strict_eq x None = (x = None)"
proof (cases x)
  case None
  then show ?thesis by simp
next
  case (Some v)
  then show ?thesis by (cases v) simp_all
qed


lemma Cache_get_in_time:
  "latency < 100 \<Longrightarrow>
   Cache_get (Replies latency) now store key =
     (case redis_get now store key of
        None \<Rightarrow> Resolved JNull
      | Some v \<Rightarrow> if v = [] then Resolved JNull
                  else (case JSON_parse v of Resolved x \<Rightarrow> Resolved x | Rejected x \<Rightarrow> Resolved JNull))"
  by (auto simp: Cache_get_def client_get_def race_timer_def try_catch_def
           split: settled.splits option.splits)

lemma Cache_get_late: "100 \<le> latency \<Longrightarrow> Cache_get (Replies latency) now store key = Resolved JNull"
  by (simp add: Cache_get_def client_get_def race_timer_def try_catch_def)

lemma Cache_get_fails: "Cache_get (Fails latency) now store key = Resolved JNull"
  by (simp add: Cache_get_def client_get_def race_timer_def try_catch_def)

lemma Cache_get_absent:
  "redis_get now store key = None \<Longrightarrow> Cache_get b now store key = Resolved JNull"
  by (cases b) (simp_all add: Cache_get_def client_get_def race_timer_def try_catch_def)

lemma Cache_set_executed:
  "0 < ttl \<Longrightarrow>
   Cache_set (Replies latency) now store key v (Some ttl) =
     (Resolved (), store(key \<mapsto> (JSON_stringify v, Some (now + ttl))))"
  by (simp add: Cache_set_def client_write_def race_timer_def try_catch_def redis_setex_def)

lemma Cache_set_failed:
  "Cache_set (Fails latency) now store key v ttl = (Resolved (), store)"
  by (simp add: Cache_set_def client_write_def race_timer_def try_catch_def Let_def)


lemma Cache_delete_executed:
  "Cache_delete (Replies latency) store key = (Resolved (), store(key := None))"
  by (simp add: Cache_delete_def client_write_def try_catch_def redis_del_def)

lemma Cache_delete_failed: "Cache_delete (Fails latency) store key = (Resolved (), store)"
  by (simp add: Cache_delete_def client_write_def try_catch_def)

lemma Cache_get_after_set:
  assumes "serializable v" and "0 < ttl" and "now' < now + ttl" and "latency < 100"
  shows "Cache_get (Replies latency) now'
           (snd (Cache_set (Replies l) now store key v (Some ttl))) key = Resolved v"
  using assms
  by (simp add: Cache_set_executed Cache_get_in_time redis_get_def JSON_parse_stringify
        JSON_stringify_nonempty)

lemma key_prefixes_differ [simp]:
  "''oauth:refresh:'' @ x \<noteq> ''oauth:code:'' @ y" "''oauth:code:'' @ y \<noteq> ''oauth:refresh:'' @ x"
  by simp_all



lemma JSON_parse_quote [simp]: "JSON_parse (quote s) = Resolved (JStr s)"
  using JSON_parse_stringify [of "JStr s"] by simp

lemma quote_nonempty [simp]: "quote s \<noteq> []"
  by (simp add: quote_def)

lemma code_payload_is_text: "\<exists>s. code_payload u uri cid scope = JStr s \<and> s \<noteq> []"
  by (simp add: code_payload_def JSON_stringify_nonempty)

lemma refresh_payload_is_text: "\<exists>s. refresh_payload u cid = JStr s \<and> s \<noteq> []"
  by (simp add: refresh_payload_def JSON_stringify_nonempty)

lemma Cache_get_text_after_set:
  assumes "s \<noteq> []" and "now' < now + ttl" and "0 < ttl" and "latency < 100"
  shows "Cache_get (Replies latency) now'
           (snd (Cache_set (Replies l) now store key (JStr s) (Some ttl))) key = Resolved (JStr s)"
  using assms by (simp add: Cache_get_after_set)

section \<open>Validation order of the refresh grant\<close>

text \<open>
  C6, as the handler has it: in the \<open>refresh_token\<close> grant the presence of the
  \<open>refresh_token\<close> parameter is checked first. A request without a (truthy)
  \<open>refresh_token\<close> is answered \<open>invalid_request\<close> (400) whatever its client
  credentials are; only a request that carries one and whose \<open>client_id\<close> or
  \<open>client_secret\<close> differs from the configured pair is answered \<open>invalid_client\<close> (401).
  Neither touches the store.
\<close>

theorem refresh_validation_order:
  assumes "body \<noteq> JNull"
    and "strict_eq (get_prop body ''grant_type'') (Some (JStr ''refresh_token''))"
  shows "(falsy (get_prop body ''refresh_token'') \<longrightarrow>
           POST e i now store (Some body) =
             (Json 400 (error_json ''invalid_request'' ''Refresh token is required''), store))
       \<and> (\<not> falsy (get_prop body ''refresh_token'')
            \<and> (\<not> strict_eq (get_prop body ''client_id'') (env_value (OAUTH_CLIENT_ID e))
               \<or> \<not> strict_eq (get_prop body ''client_secret'')
                      (env_value (OAUTH_CLIENT_SECRET e))) \<longrightarrow>
           POST e i now store (Some body) =
             (Json 401 (error_json ''invalid_client'' ''Invalid client credentials''), store))"
  using assms
  by (auto simp: POST_def refresh_token_grant_def Let_def split: option.splits)

theorem refresh_validation_order_witness:
  "POST demo_env (demo_io hex_a) 0 Map.empty
     (Some (JObj [(''grant_type'', JStr ''refresh_token''), (''client_id'', JStr ''wrong'')])) =
     (Json 400 (error_json ''invalid_request'' ''Refresh token is required''), Map.empty)
   \<and> POST demo_env (demo_io hex_a) 0 Map.empty
     (Some (JObj [(''grant_type'', JStr ''refresh_token''), (''refresh_token'', JStr ''r0''),
                  (''client_id'', JStr ''wrong'')])) =
     (Json 401 (error_json ''invalid_client'' ''Invalid client credentials''), Map.empty)"
  using refresh_validation_order
          [of "JObj [(''grant_type'', JStr ''refresh_token''), (''client_id'', JStr ''wrong'')]"
              demo_env "demo_io hex_a" 0 Map.empty]
        refresh_validation_order
          [of "JObj [(''grant_type'', JStr ''refresh_token''), (''refresh_token'', JStr ''r0''),
                     (''client_id'', JStr ''wrong'')]"
              demo_env "demo_io hex_a" 0 Map.empty]
  by (simp add: demo_env_def env_value_def)

text \<open>
  The claim as stated fails: with a wrong \<open>client_id\<close> and no \<open>refresh_token\<close> the answer
  is \<open>invalid_request\<close> (400), not \<open>invalid_client\<close> (401).
\<close>

theorem refresh_credentials_first_counterexample:
  "\<not> strict_eq
       (get_prop (JObj [(''grant_type'', JStr ''refresh_token''), (''client_id'', JStr ''wrong'')])
          ''client_id'')
       (env_value (OAUTH_CLIENT_ID demo_env))
   \<and> fst (POST demo_env (demo_io hex_a) 0 Map.empty
        (Some (JObj [(''grant_type'', JStr ''refresh_token''), (''client_id'', JStr ''wrong'')])))
      = Json 400 (error_json ''invalid_request'' ''Refresh token is required'')
   \<and> fst (POST demo_env (demo_io hex_a) 0 Map.empty
        (Some (JObj [(''grant_type'', JStr ''refresh_token''), (''client_id'', JStr ''wrong'')])))
      \<noteq> Json 401 (error_json ''invalid_client'' ''Invalid client credentials'')"
  by (simp add: POST_def refresh_token_grant_def demo_env_def env_value_def error_json_def)

section \<open>The example deployment, evaluated\<close>

lemma demo_authorize_result:
  "GET_authorize demo_env (demo_io hex_a) 1000 Map.empty demo_authorize =
     (Redirect (Callback ''https://m.example.com/cb'' hex_a None),
      [''oauth:code:'' @ hex_a \<mapsto>
         (JSON_stringify (code_payload demo_user ''https://m.example.com/cb'' (Some ''X'')
            ''openid profile email''), Some 1300)])"
  by (simp add: GET_authorize_def issue_code_def demo_env_def demo_io_def demo_authorize_def
        demo_verifyToken_def prisma_findUnique_def Cache_set_executed)

lemma issued_store_eq:
  "issued_store =
     [''oauth:code:'' @ hex_a \<mapsto>
        (JSON_stringify (code_payload demo_user ''https://m.example.com/cb'' (Some ''X'')
           ''openid profile email''), Some 1300)]"
  by (simp add: issued_store_def demo_authorize_result)

lemma hex_a_nonempty: "hex_a \<noteq> []"
  by (simp add: hex_a_def)


lemma hex_distinct [simp]: "hex_a \<noteq> hex_b" "hex_b \<noteq> hex_a" "hex_b \<noteq> []" "hex_c \<noteq> []"
  by (simp_all add: hex_a_def hex_b_def hex_c_def)

section \<open>Slow and failing store reads\<close>



section \<open>The cache round trip\<close>

text \<open>
  C10, as the helper has it: for a key \<open>k\<close>, a serialisable value \<open>v\<close> and a positive
  \<open>ttl\<close>, a \<open>Cache.get k\<close> after a \<open>Cache.set k v ttl\<close> that the store executed returns
  \<open>v\<close>, provided the entry under \<open>k\<close> is still the one written (no later write or
  delete of \<open>k\<close>), the TTL has not elapsed, and the read is answered within the 100 ms
  timer.
\<close>

theorem cache_round_trip:
  assumes "serializable v" and "0 < ttl" and "now' < now + ttl" and "read_latency < 100"
    and "store' k = snd (Cache_set (Replies write_latency) now store k v (Some ttl)) k"
  shows "Cache_get (Replies read_latency) now' store' k = Resolved v"
  using assms
  by (simp add: Cache_set_executed Cache_get_in_time redis_get_def JSON_parse_stringify
        JSON_stringify_nonempty)

theorem cache_round_trip_witness:
  "Cache_get (Replies 3) 10
     (snd (Cache_set (Replies 3) 0 Map.empty ''k''
        (JObj [(''a'', JArr [JNum 1, JNull]), (''b'', JStr ''v'')]) (Some 60))) ''k'' =
   Resolved (JObj [(''a'', JArr [JNum 1, JNull]), (''b'', JStr ''v'')])"
  using cache_round_trip
          [of "JObj [(''a'', JArr [JNum 1, JNull]), (''b'', JStr ''v'')]" 60 10 0 3
              "snd (Cache_set (Replies 3) 0 Map.empty ''k''
                 (JObj [(''a'', JArr [JNum 1, JNull]), (''b'', JStr ''v'')]) (Some 60))"
              "''k''" 3 Map.empty]
  by simp

text \<open>
  Without the bound on the read the claim fails: the store works, the TTL has not elapsed,
  the reply arrives after 150 ms, and \<open>Cache.get\<close> returns \<open>null\<close>.
\<close>

theorem slow_read_loses_value_counterexample:
  "serializable (JStr ''v'') \<and> (0::nat) < 60 \<and> (10::nat) < 0 + 60
   \<and> Cache_get (Replies 150) 10
        (snd (Cache_set (Replies 3) 0 Map.empty ''k'' (JStr ''v'') (Some 60))) ''k''
      \<noteq> Resolved (JStr ''v'')"
  by (simp add: Cache_get_late)

section \<open>Expired codes\<close>



section \<open>Licensing at userinfo\<close>

text \<open>
  C8: for a bearer token that \<open>verifyToken\<close> accepts and whose \<open>userId\<close> names an
  existing user, the userinfo response is built from the user row alone:
  \<open>licensed_modules\<close> and \<open>subscription_tier\<close> are the tenant's current values (an
  empty list and \<open>free\<close> when the column or the tenant is missing), whatever licensing
  claims the token's payload carries.
\<close>

theorem userinfo_reads_current_licensing:
  assumes "verifyToken e token = Resolved payload"
    and "findUnique e (get_prop payload ''userId'') = Resolved (Some u)"
  shows "GET_userinfo e (Some (''Bearer '' @ token)) = Json 200 (userinfo_body u)
       \<and> get_prop (userinfo_body u) ''licensed_modules'' =
           Some (JArr (map JStr (modules_or_empty
             (case user_tenant u of None \<Rightarrow> None | Some t \<Rightarrow> tenant_licensedModules t))))
       \<and> get_prop (userinfo_body u) ''subscription_tier'' =
           Some (JStr (tier_or_free
             (case user_tenant u of None \<Rightarrow> None | Some t \<Rightarrow> tenant_subscriptionTier t)))"
  using assms
  by (cases "user_tenant u") (simp_all add: GET_userinfo_def userinfo_body_def)

text \<open>
  The example token was signed for \<open>crm\<close> on the free tier; the tenant now has
  \<open>crm\<close> and \<open>invoicing\<close> on the starter tier, and that is what is returned.
\<close>

theorem userinfo_reads_current_licensing_witness:
  "get_prop (JObj [(''userId'', JStr ''u1''), (''tenantId'', JStr ''t1''),
                   (''licensedModules'', JArr [JStr ''crm'']),
                   (''subscriptionTier'', JStr ''free'')]) ''licensedModules''
     = Some (JArr [JStr ''crm''])
   \<and> GET_userinfo demo_env (Some ''Bearer session-u1'') = Json 200 (userinfo_body demo_user)
   \<and> get_prop (userinfo_body demo_user) ''licensed_modules'' =
       Some (JArr [JStr ''crm'', JStr ''invoicing''])
   \<and> get_prop (userinfo_body demo_user) ''subscription_tier'' = Some (JStr ''starter'')"
  using userinfo_reads_current_licensing
          [of demo_env "''session-u1''"
              "JObj [(''userId'', JStr ''u1''), (''tenantId'', JStr ''t1''),
                     (''licensedModules'', JArr [JStr ''crm'']),
                     (''subscriptionTier'', JStr ''free'')]"
              demo_user]
  by (simp add: demo_env_def demo_verifyToken_def prisma_findUnique_def demo_user_def
        demo_tenant_def modules_or_empty_def tier_or_free_def)

section \<open>Exchanging an issued code\<close>

text \<open>
  What the authorization endpoint leaves in the store when it answers with the callback
  redirect.
\<close>

lemma authorize_callback:
  assumes "GET_authorize e i now store req = (Redirect (Callback uri c st), store1)"
  shows "\<exists>u scope r. c = random_hex i \<and> q_redirect_uri req = Some uri
           \<and> Cache_set (set_reply i) now store (''oauth:code:'' @ c)
                 (code_payload u uri (q_client_id req) scope) (Some 300) = (r, store1)"
  using assms
  by (auto simp: GET_authorize_def issue_code_def Let_def
           split: option.splits if_splits settled.splits prod.splits)

text \<open>
  C1 asks that a freshly issued code, presented at once with the same \<open>redirect_uri\<close>
  and the configured client, is exchanged with status 200. The handlers do not do that.
  The authorization endpoint hands \<open>Cache.set\<close> the text of the payload, which
  \<open>Cache.set\<close> serialises again; \<open>Cache.get\<close> parses once and returns that text, a
  string, whose \<open>redirectUri\<close> is \<open>undefined\<close>. Hence for every code the
  authorization endpoint issued and the store kept, every exchange within the TTL that
  presents the code with the configured client and the very \<open>redirect_uri\<close> of the
  authorization request, and whose read is answered in time, fails with \<open>invalid_grant\<close>
  (400, "redirect_uri does not match") and leaves the store as it was.
\<close>

theorem issued_code_is_not_exchanged:
  assumes "GET_authorize e i0 issued store0 req = (Redirect (Callback uri c st), store1)"
    and "set_reply i0 = Replies write_latency"
    and "c \<noteq> []"
    and "body \<noteq> JNull"
    and "strict_eq (get_prop body ''grant_type'') (Some (JStr ''authorization_code''))"
    and "strict_eq (get_prop body ''client_id'') (env_value (OAUTH_CLIENT_ID e))"
    and "strict_eq (get_prop body ''client_secret'') (env_value (OAUTH_CLIENT_SECRET e))"
    and "get_prop body ''code'' = Some (JStr c)"
    and "get_prop body ''redirect_uri'' = Some (JStr uri)"
    and "now < issued + 300"
    and "get_reply i = Replies read_latency" and "read_latency < 100"
  shows "POST e i now store1 (Some body) =
           (Json 400 (error_json ''invalid_grant'' ''redirect_uri does not match''), store1)"
proof -
  obtain u scope where
    s1: "store1 = snd (Cache_set (Replies write_latency) issued store0 (''oauth:code:'' @ c)
                         (code_payload u uri (q_client_id req) scope) (Some 300))"
    using authorize_callback [OF assms(1)] assms(2) by (metis snd_conv)
  obtain s where s: "code_payload u uri (q_client_id req) scope = JStr s" "s \<noteq> []"
    using code_payload_is_text by blast
  have "Cache_get (Replies read_latency) now store1 (''oauth:code:'' @ c) = Resolved (JStr s)"
    unfolding s1 s(1) using s(2) assms(10,12) by (intro Cache_get_text_after_set) simp_all
  then show ?thesis
    using assms(3-9,11) s(2)
    by (simp add: POST_def authorization_code_grant_def Let_def)
qed

theorem issued_code_is_not_exchanged_witness:
  "GET_authorize demo_env (demo_io hex_a) 1000 Map.empty demo_authorize =
     (Redirect (Callback ''https://m.example.com/cb'' hex_a None), issued_store)
   \<and> POST demo_env (demo_io hex_b) 1000 issued_store
        (Some (exchange_body hex_a [(''redirect_uri'', JStr ''https://m.example.com/cb'')])) =
      (Json 400 (error_json ''invalid_grant'' ''redirect_uri does not match''), issued_store)"
proof -
  have issue: "GET_authorize demo_env (demo_io hex_a) 1000 Map.empty demo_authorize =
     (Redirect (Callback ''https://m.example.com/cb'' hex_a None), issued_store)"
    by (simp add: demo_authorize_result issued_store_eq)
  have "POST demo_env (demo_io hex_b) 1000 issued_store
        (Some (exchange_body hex_a [(''redirect_uri'', JStr ''https://m.example.com/cb'')])) =
      (Json 400 (error_json ''invalid_grant'' ''redirect_uri does not match''), issued_store)"
    using issued_code_is_not_exchanged
            [OF issue, of 3
                "exchange_body hex_a [(''redirect_uri'', JStr ''https://m.example.com/cb'')]"
                1000 "demo_io hex_b" 3]
    by (simp add: exchange_body_def demo_env_def demo_io_def env_value_def hex_a_nonempty)
  with issue show ?thesis by simp
qed

section \<open>When the code is deleted\<close>





section \<open>Failures while authorizing\<close>

text \<open>
  C4, as the handler has it: for an authorize request with the configured \<open>client_id\<close>,
  \<open>response_type=code\<close>, a \<open>redirect_uri\<close> and a session cookie, a failed identity
  lookup (the token is refused, the lookup throws, or the user is missing) is answered
  with the redirect to the login page, the store untouched; a failed write of the code is
  swallowed by \<open>Cache.set\<close> and the handler still redirects to the \<open>redirect_uri\<close> with
  the code, which is then not in the store; and no such request is answered with a JSON
  error, so never with \<open>server_error\<close> (500).
\<close>

theorem authorize_failures_redirect:
  assumes "q_client_id req = Some cid" and "OAUTH_CLIENT_ID e = Some cid"
    and "q_response_type req = Some ''code''"
    and "q_redirect_uri req = Some uri" and "uri \<noteq> []"
    and "cookie_payaid_token req = Some token" and "token \<noteq> []"
  shows "((\<exists>x. verifyToken e token = Rejected x)
          \<or> (\<exists>p. verifyToken e token = Resolved p
                \<and> ((\<exists>x. findUnique e (get_prop p ''userId'') = Rejected x)
                    \<or> findUnique e (get_prop p ''userId'') = Resolved None)) \<longrightarrow>
          GET_authorize e i now store req = (Redirect (Login (request_url req)), store))
       \<and> ((\<exists>p u l. verifyToken e token = Resolved p
                \<and> findUnique e (get_prop p ''userId'') = Resolved (Some u)
                \<and> set_reply i = Fails l) \<and> url_parses e uri \<longrightarrow>
          GET_authorize e i now store req =
            (Redirect (Callback uri (random_hex i)
               (case q_state req of None \<Rightarrow> None | Some s \<Rightarrow> if s = [] then None else Some s)),
             store))
       \<and> (\<forall>status body. fst (GET_authorize e i now store req) \<noteq> Json status body)"
proof -
  have login: "GET_authorize e i now store req = (Redirect (Login (request_url req)), store)"
    if "(\<exists>x. verifyToken e token = Rejected x)
          \<or> (\<exists>p. verifyToken e token = Resolved p
                \<and> ((\<exists>x. findUnique e (get_prop p ''userId'') = Rejected x)
                    \<or> findUnique e (get_prop p ''userId'') = Resolved None))"
    using that assms
    by (auto simp: GET_authorize_def issue_code_def Let_def)
  have unstored: "GET_authorize e i now store req =
            (Redirect (Callback uri (random_hex i)
               (case q_state req of None \<Rightarrow> None | Some s \<Rightarrow> if s = [] then None else Some s)),
             store)"
    if "verifyToken e token = Resolved p"
      and "findUnique e (get_prop p ''userId'') = Resolved (Some u)"
      and "set_reply i = Fails l" and "url_parses e uri" for p u l
    using that assms
    by (simp add: GET_authorize_def issue_code_def Let_def Cache_set_failed)
  have never: "fst (GET_authorize e i now store req) \<noteq> Json status body" for status body
  proof -
    obtain r s' where r: "issue_code e i now store req token uri
        (case q_scope req of None \<Rightarrow> ''openid profile email''
         | Some s \<Rightarrow> if s = [] then ''openid profile email'' else s) = (r, s')"
      by (cases "issue_code e i now store req token uri
        (case q_scope req of None \<Rightarrow> ''openid profile email''
         | Some s \<Rightarrow> if s = [] then ''openid profile email'' else s)")
    have "\<And>resp. r = Resolved resp \<Longrightarrow> \<exists>loc. resp = Redirect loc"
      using r
      by (auto simp: issue_code_def Let_def
            split: settled.splits option.splits prod.splits if_splits)
    then show ?thesis
      using assms r by (cases r) (auto simp: GET_authorize_def Let_def)
  qed
  show ?thesis using login unstored never by blast
qed

theorem authorize_failures_redirect_witness:
  "GET_authorize (demo_env\<lparr>findUnique := (\<lambda>idv. Rejected BackendError)\<rparr>) (demo_io hex_a) 1000
     Map.empty demo_authorize =
     (Redirect (Login ''https://core.example.com/api/oauth/authorize''), Map.empty)
   \<and> GET_authorize demo_env ((demo_io hex_a)\<lparr>set_reply := Fails 5\<rparr>) 1000 Map.empty
       demo_authorize =
     (Redirect (Callback ''https://m.example.com/cb'' hex_a None), Map.empty)"
  using authorize_failures_redirect
          [of demo_authorize "''X''" "demo_env\<lparr>findUnique := (\<lambda>idv. Rejected BackendError)\<rparr>"
              "''https://m.example.com/cb''" "''session-u1''" "demo_io hex_a" 1000 Map.empty]
        authorize_failures_redirect
          [of demo_authorize "''X''" demo_env
              "''https://m.example.com/cb''" "''session-u1''"
              "(demo_io hex_a)\<lparr>set_reply := Fails 5\<rparr>" 1000 Map.empty]
  by (simp add: demo_authorize_def demo_env_def demo_verifyToken_def prisma_findUnique_def
        demo_io_def)

text \<open>
  The claim as stated fails on both counts: with the store down the caller is redirected
  to its \<open>redirect_uri\<close> with a code the store does not hold, and with the user lookup
  failing the answer is not \<open>server_error\<close>.
\<close>

theorem authorize_unstored_code_counterexample:
  "GET_authorize demo_env ((demo_io hex_a)\<lparr>set_reply := Fails 5\<rparr>) 1000 Map.empty demo_authorize
     = (Redirect (Callback ''https://m.example.com/cb'' hex_a None), Map.empty)
   \<and> snd (GET_authorize demo_env ((demo_io hex_a)\<lparr>set_reply := Fails 5\<rparr>) 1000 Map.empty
          demo_authorize) (''oauth:code:'' @ hex_a) = None
   \<and> fst (GET_authorize (demo_env\<lparr>findUnique := (\<lambda>idv. Rejected BackendError)\<rparr>)
            (demo_io hex_a) 1000 Map.empty demo_authorize)
      \<noteq> Json 500 (error_json ''server_error'' ''An error occurred during authorization'')"
  by (simp add: GET_authorize_def issue_code_def demo_authorize_def demo_env_def
        demo_verifyToken_def prisma_findUnique_def demo_io_def Cache_set_failed)

section \<open>Two exchanges of one code at once\<close>




lemma only_texts_remove:
  assumes "only_texts store"
  shows "only_texts (store(k := None))"
  unfolding only_texts_def
proof (intro allI impI)
  fix key v expiry
  assume h: "(store(k := None)) key = Some (v, expiry)"
  then have "store key = Some (v, expiry)" by (cases "key = k") simp_all
  then show "\<exists>t. v = quote t" using assms unfolding only_texts_def by blast
qed


lemma only_texts_delete:
  assumes "Cache_delete b store k = (r, store')" and "only_texts store"
  shows "only_texts store'"
proof (cases b)
  case (Fails l)
  then show ?thesis using assms by (simp add: Cache_delete_failed)
next
  case (Replies l)
  then have "store' = store(k := None)"
    using assms(1) by (simp add: Cache_delete_executed)
  then show ?thesis using only_texts_remove [OF assms(2)] by simp
qed

lemma Cache_get_texts:
  assumes "only_texts store"
  shows "Cache_get b now store k = Resolved JNull \<or> (\<exists>s. Cache_get b now store k = Resolved (JStr s))"
proof (cases b)
  case (Fails l)
  then show ?thesis by (simp add: Cache_get_fails)
next
  case (Replies l)
  show ?thesis
  proof (cases "l < 100")
    case False
    then show ?thesis using Replies by (simp add: Cache_get_late)
  next
    case True
    show ?thesis
    proof (cases "redis_get now store k")
      case None
      then show ?thesis by (simp add: Cache_get_absent)
    next
      case (Some v)
      then obtain x where "store k = Some (v, x)"
        by (auto simp: redis_get_def split: option.splits if_splits)
      then obtain s where "v = quote s"
        using assms by (auto simp: only_texts_def)
      then show ?thesis
        using True Replies Some by (simp add: Cache_get_in_time)
    qed
  qed
qed


lemma step_keeps:
  assumes "only_texts store" and "\<forall>u. findUnique e None \<noteq> Resolved (Some u)"
    and "holds_text st" and "exchange_step e i now body st store = (st', store')"
  shows "holds_text st' \<and> only_texts store'"
proof (cases st)
  case Start
  have get: "\<And>k. Cache_get (get_reply i) now store k = Resolved JNull
               \<or> (\<exists>s. Cache_get (get_reply i) now store k = Resolved (JStr s))"
    using Cache_get_texts [OF assms(1)] by blast
  show ?thesis
  proof (cases "get_prop body ''code''")
    case None
    then show ?thesis
      using assms(1,4) Start
      by (auto simp del: strict_eq_string strict_eq_undefined split: if_splits)
  next
    case (Some c)
    show ?thesis
      using assms(1,4) Start Some get [of "''oauth:code:'' @ to_string c"]
      by (auto simp del: strict_eq_string strict_eq_undefined split: if_splits)
  qed
next
  case (Deleting c d)
  then obtain s where d: "d = JStr s"
    using assms(3) by (cases d) simp_all
  obtain r s1 where del: "Cache_delete (del_reply i) store (''oauth:code:'' @ to_string c) = (r, s1)"
    by (cases "Cache_delete (del_reply i) store (''oauth:code:'' @ to_string c)")
  have "only_texts s1" using del assms(1) by (rule only_texts_delete)
  then show ?thesis
    using assms(4) Deleting d del by (cases r) (auto simp: thrown_def)
next
  case (Finding d)
  then obtain s where d: "d = JStr s"
    using assms(3) by (cases d) simp_all
  show ?thesis
    using assms(1,2,4) Finding d
    by (auto simp: thrown_def split: settled.splits option.splits)
next
  case (Storing d u t)
  then show ?thesis using assms(3) by simp
next
  case (Finished r)
  then show ?thesis using assms(1,3,4) by auto
qed



lemma step_store_texts:
  assumes "only_texts store" and "\<forall>u. findUnique e None \<noteq> Resolved (Some u)"
    and "holds_text st"
  shows "holds_text (fst (exchange_step e i now body st store))
       \<and> only_texts (snd (exchange_step e i now body st store))"
  using step_keeps [OF assms, of i now body] by (cases "exchange_step e i now body st store") simp













end
